theory Spec2Isabelle
  imports Main "HOL-Library.Sublist"
begin

section \<open>Strings of the Go standard library\<close>

text \<open>
  \<^verbatim>\<open>strings.Join(elems, sep)\<close>: the elements in order, \<open>sep\<close> between two neighbours.
\<close>

fun strings_Join :: "string list \<Rightarrow> string \<Rightarrow> string" where
  "strings_Join [] sep = []"
| "strings_Join [x] sep = x"
| "strings_Join (x # y # ys) sep = x @ sep @ strings_Join (y # ys) sep"

text \<open>
  \<^verbatim>\<open>strings.Contains(s, substr)\<close>: \<open>substr\<close> starts at some position of \<open>s\<close>.
\<close>

fun strings_Contains :: "string \<Rightarrow> string \<Rightarrow> bool" where
  "strings_Contains [] substr = (substr = [])"
| "strings_Contains (c # s) substr = (prefix substr (c # s) \<or> strings_Contains s substr)"

section \<open>Local repositories\<close>

text \<open>
  The fields of \<^verbatim>\<open>LocalRepository\<close> that \<^verbatim>\<open>commands.go\<close> reads.
\<close>

record LocalRepository =
  FullPath :: string
  RelPath :: string
  PathParts :: "string list"

text \<open>
  Modelled from the spec: method \<^verbatim>\<open>Subpaths\<close> of \<^verbatim>\<open>LocalRepository\<close>, which is not
  among the sources. A Subpath is a suffix of \<open>pathParts\<close>; for parts
  \<open>[host, owner, name]\<close> the subpaths are \<open>[name]\<close>, \<open>[owner, name]\<close>,
  \<open>[host, owner, name]\<close>, shortest first, of lengths \<open>1..len(pathParts)\<close>.
  \<^verbatim>\<open>doList\<close> prints a subpath and uses it as the key of a \<^verbatim>\<open>map[string]int\<close>, so
  each one is the string of its parts joined by the separator.
\<close>

definition Subpaths :: "LocalRepository \<Rightarrow> string list" where
  "Subpaths repo = map (\<lambda>ps. strings_Join ps ''/'') (tl (suffixes (PathParts repo)))"

text \<open>
  Modelled from the spec: method \<^verbatim>\<open>Matches\<close> of \<^verbatim>\<open>LocalRepository\<close>, which is not among
  the sources. Exact mode requires \<open>relPath\<close> to equal \<open>query\<close> or to equal
  \<open>*/query\<close>.
\<close>

definition Matches :: "LocalRepository \<Rightarrow> string \<Rightarrow> bool" where
  "Matches repo pathQuery =
     (RelPath repo = pathQuery \<or> suffix (''/'' @ pathQuery) (RelPath repo))"

text \<open>
  Modelled from the spec: method \<^verbatim>\<open>IsUnderPrimaryRoot\<close> of \<^verbatim>\<open>LocalRepository\<close>, which is
  not among the sources. The roots are an ordered sequence of directories, the first
  is primary, and \<open>fullPath = root + relPath\<close>: a repository is under the primary root
  when its full path starts with the first root.
\<close>

definition IsUnderPrimaryRoot :: "string list \<Rightarrow> LocalRepository \<Rightarrow> bool" where
  "IsUnderPrimaryRoot roots repo =
     (case roots of [] \<Rightarrow> False | primary # _ \<Rightarrow> prefix primary (FullPath repo))"

text \<open>
  Modelled from the spec: \<^verbatim>\<open>walkLocalRepositories\<close>, which is not among the sources.
  Discovery yields the local repositories in a stable order (root order, then walk
  order); the callback runs once on each, in that order. The callbacks of
  \<^verbatim>\<open>commands.go\<close> update a captured slice, which is the state threaded here.
\<close>

fun walkLocalRepositories ::
  "LocalRepository list \<Rightarrow> (LocalRepository \<Rightarrow> 's \<Rightarrow> 's) \<Rightarrow> 's \<Rightarrow> 's" where
  "walkLocalRepositories [] callback s = s"
| "walkLocalRepositories (repo # rest) callback s =
     walkLocalRepositories rest callback (callback repo s)"

section \<open>The list command\<close>

text \<open>
  A Go \<^verbatim>\<open>map[string]int\<close>; reading a key that is absent gives 0. The counters count
  elements of slices held in memory, far below the range of Go's \<^verbatim>\<open>int\<close>, and are
  unbounded integers here.
\<close>

type_synonym counts = "string \<rightharpoonup> int"

definition at :: "counts \<Rightarrow> string \<Rightarrow> int" where
  "at m k = (case m k of None \<Rightarrow> 0 | Some n \<Rightarrow> n)"

text \<open>
  The filter chosen from the query and the \<^verbatim>\<open>exact\<close> flag. \<open>nonHostPath\<close> is the
  method \<^verbatim>\<open>NonHostPath\<close> of \<^verbatim>\<open>LocalRepository\<close>, which \<^verbatim>\<open>commands.go\<close> calls and does
  not define, and of which the spec says nothing: it is a parameter.
\<close>

definition filterFn ::
  "(LocalRepository \<Rightarrow> string) \<Rightarrow> string \<Rightarrow> bool \<Rightarrow> LocalRepository \<Rightarrow> bool" where
  "filterFn nonHostPath query exact repo =
     (if query = [] then True
      else if exact then Matches repo query
      else strings_Contains (nonHostPath repo) query)"

text \<open>The inner loop of the first pass: one more for every subpath of \<open>repo\<close>.\<close>

fun countSubpaths :: "string list \<Rightarrow> counts \<Rightarrow> counts" where
  "countSubpaths [] subpathCount = subpathCount"
| "countSubpaths (p # ps) subpathCount =
     countSubpaths ps (subpathCount(p \<mapsto> at subpathCount p + 1))"

text \<open>
  The first pass over \<open>repos\<close>: the subpaths of a repository are counted when no
  repository with its \<open>RelPath\<close> has been seen before; \<open>reposCount\<close> counts every one.
\<close>

fun countRepos :: "LocalRepository list \<Rightarrow> counts \<times> counts \<Rightarrow> counts \<times> counts" where
  "countRepos [] (subpathCount, reposCount) = (subpathCount, reposCount)"
| "countRepos (repo # rest) (subpathCount, reposCount) =
     countRepos rest
       (if at reposCount (RelPath repo) = 0
        then countSubpaths (Subpaths repo) subpathCount else subpathCount,
        reposCount(RelPath repo \<mapsto> at reposCount (RelPath repo) + 1))"

text \<open>
  The inner loop of the second pass: the first subpath counted exactly once is
  printed, and the loop breaks; \<open>None\<close> when the loop ends without printing.
\<close>

fun firstUnique :: "counts \<Rightarrow> string list \<Rightarrow> string option" where
  "firstUnique subpathCount [] = None"
| "firstUnique subpathCount (p # ps) =
     (if at subpathCount p = 1 then Some p else firstUnique subpathCount ps)"

text \<open>
  What the second pass does with one repository: \<^verbatim>\<open>continue\<close> on a duplicated
  repository that is not under the primary root, else the inner loop.
\<close>

definition printedFor ::
  "(LocalRepository \<Rightarrow> bool) \<Rightarrow> counts \<Rightarrow> counts \<Rightarrow> LocalRepository \<Rightarrow> string option" where
  "printedFor isUnderPrimaryRoot subpathCount reposCount repo =
     (if at reposCount (RelPath repo) > 1 \<and> \<not> isUnderPrimaryRoot repo then None
      else firstUnique subpathCount (Subpaths repo))"

text \<open>The second pass: the lines printed, in order.\<close>

fun printUnique ::
  "(LocalRepository \<Rightarrow> bool) \<Rightarrow> counts \<Rightarrow> counts \<Rightarrow> LocalRepository list \<Rightarrow> string list" where
  "printUnique isUnderPrimaryRoot subpathCount reposCount [] = []"
| "printUnique isUnderPrimaryRoot subpathCount reposCount (repo # rest) =
     (case printedFor isUnderPrimaryRoot subpathCount reposCount repo of
        None \<Rightarrow> printUnique isUnderPrimaryRoot subpathCount reposCount rest
      | Some p \<Rightarrow> p # printUnique isUnderPrimaryRoot subpathCount reposCount rest)"

text \<open>The repositories that pass the filter, in the order of the walk.\<close>

definition listed ::
  "(LocalRepository \<Rightarrow> string) \<Rightarrow> LocalRepository list \<Rightarrow> string \<Rightarrow> bool
     \<Rightarrow> LocalRepository list" where
  "listed nonHostPath discovered query exact =
     walkLocalRepositories discovered
       (\<lambda>repo repos.
          if filterFn nonHostPath query exact repo = False then repos else repos @ [repo]) []"

text \<open>
  \<^verbatim>\<open>doList\<close>: the lines it prints. \<open>nonHostPath\<close> and \<open>isUnderPrimaryRoot\<close> are
  the methods of those names, \<open>discovered\<close> the sequence of the walk; the query and
  the three flags come from the command line.
\<close>

definition doList ::
  "(LocalRepository \<Rightarrow> string) \<Rightarrow> (LocalRepository \<Rightarrow> bool) \<Rightarrow> LocalRepository list
     \<Rightarrow> string \<Rightarrow> bool \<Rightarrow> bool \<Rightarrow> bool
     \<Rightarrow> string list" where
  "doList nonHostPath isUnderPrimaryRoot discovered query exact printFullPaths printUniquePaths =
     (let repos = listed nonHostPath discovered query exact in
      if printUniquePaths then
        (case countRepos repos (Map.empty, Map.empty) of
           (subpathCount, reposCount) \<Rightarrow>
             printUnique isUnderPrimaryRoot subpathCount reposCount repos)
      else map (\<lambda>repo. if printFullPaths then FullPath repo else RelPath repo) repos)"

text \<open>
  The repositories whose subpaths the first pass counts, spelled out: a repository
  is kept when no repository before it has its \<open>RelPath\<close>. \<open>seen\<close> holds the
  \<open>RelPath\<close> values met so far.
\<close>

fun firstCopies :: "string list \<Rightarrow> LocalRepository list \<Rightarrow> LocalRepository list" where
  "firstCopies seen [] = []"
| "firstCopies seen (repo # rest) =
     (if RelPath repo \<in> set seen then firstCopies seen rest
      else repo # firstCopies (RelPath repo # seen) rest)"

text \<open>
  Eligibility for printing, in the words of the spec: of a \<open>relPath\<close> that occurs
  more than once, only the copy under the primary root is eligible.
\<close>

definition eligible ::
  "(LocalRepository \<Rightarrow> bool) \<Rightarrow> LocalRepository list \<Rightarrow> LocalRepository \<Rightarrow> bool" where
  "eligible isUnderPrimaryRoot repos repo =
     (if count_list (map RelPath repos) (RelPath repo) > 1 then isUnderPrimaryRoot repo
      else True)"

text \<open>
  The order of discovery puts the primary root first (the comment
  \<^verbatim>\<open>// Primary first\<close> of the first pass): of a \<open>RelPath\<close> that occurs more than once,
  the first copy met is the one under the primary root, and no later copy is.
\<close>

fun primaryFirst ::
  "(LocalRepository \<Rightarrow> bool) \<Rightarrow> LocalRepository list \<Rightarrow> string list \<Rightarrow> LocalRepository list
     \<Rightarrow> bool" where
  "primaryFirst isUnderPrimaryRoot repos seen [] = True"
| "primaryFirst isUnderPrimaryRoot repos seen (repo # rest) =
     ((if count_list (map RelPath repos) (RelPath repo) > 1
       then isUnderPrimaryRoot repo = (RelPath repo \<notin> set seen) else True)
      \<and> primaryFirst isUnderPrimaryRoot repos (RelPath repo # seen) rest)"

text \<open>
  The Subpath that unique listing of \<open>repos\<close> prints for \<open>repo\<close>, \<open>None\<close> when it
  prints none: both passes of \<^verbatim>\<open>doList\<close>, the second one at \<open>repo\<close>.
\<close>

definition assigned ::
  "(LocalRepository \<Rightarrow> bool) \<Rightarrow> LocalRepository list \<Rightarrow> LocalRepository \<Rightarrow> string option" where
  "assigned isUnderPrimaryRoot repos repo =
     (case countRepos repos (Map.empty, Map.empty) of
        (subpathCount, reposCount) \<Rightarrow>
          printedFor isUnderPrimaryRoot subpathCount reposCount repo)"



text \<open>
  The record of the clone found under \<open>root\<close> at the path parts \<open>parts\<close>
  (\<open>fullPath = root + relPath\<close>), for the examples.
\<close>

definition repoAt :: "string \<Rightarrow> string list \<Rightarrow> LocalRepository" where
  "repoAt root parts =
     \<lparr>FullPath = root @ ''/'' @ strings_Join parts ''/'',
      RelPath = strings_Join parts ''/'', PathParts = parts\<rparr>"

section \<open>Effects\<close>

text \<open>
  Modelled from the spec: the VCS backends, which are not among the sources. A
  \<open>VcsKind\<close> is one of git, mercurial and subversion; the unknown sentinel is Go's
  \<^verbatim>\<open>nil\<close>, \<open>None\<close> here.
\<close>

datatype VcsKind = Git | Mercurial | Subversion

text \<open>
  What a command does to the outside, in order: log lines, printed lines, the usage
  text, \<^verbatim>\<open>os.Stat\<close>, the two calls of a backend, and what \<^verbatim>\<open>look\<close> does to the
  process.
\<close>

datatype event =
    Log string string
  | Println string
  | ShowCommandHelp string
  | Stat string
  | Clone VcsKind string string bool
  | Update VcsKind string
  | Chdir string
  | Exec string
  | StartCmd string string
  | Wait

text \<open>
  How a command ends: it returns, \<^verbatim>\<open>os.Exit(n)\<close>, a panic (\<^verbatim>\<open>utils.PanicIf\<close> on an
  error, or a nil dereference), \<^verbatim>\<open>utils.DieIf\<close> on an error, or \<^verbatim>\<open>syscall.Exec\<close>
  replacing the process.
\<close>

datatype outcome = Returned | Exited int | Panicked | Died string | Execed

datatype stat_result = Exists | NotExist | StatError string

text \<open>
  The interface \<^verbatim>\<open>RemoteRepository\<close>, by the results of the three methods that
  \<^verbatim>\<open>commands.go\<close> calls. A URL is the text it prints as.
\<close>

record RemoteRepository =
  URL :: string
  IsValid :: bool
  VCS :: "VcsKind option"

text \<open>
  What \<^verbatim>\<open>commands.go\<close> calls and does not define. The answers of the file system
  (\<^verbatim>\<open>os.Stat\<close>, \<^verbatim>\<open>LocalRepositoryFromURL\<close>, the \<^verbatim>\<open>VCS()\<close> of a local repository) may
  depend on what has been done so far, so they take the events up to the call. An
  error is the text of its message. \<open>fmt_pointer\<close> is how \<^verbatim>\<open>%s\<close> renders a
  \<^verbatim>\<open>*string\<close>: by its address, not by the text it points to.
\<close>

record collaborators =
  os_Stat :: "event list \<Rightarrow> string \<Rightarrow> stat_result"
  LocalRepositoryFromURL :: "event list \<Rightarrow> string \<Rightarrow> LocalRepository"
  local_VCS :: "event list \<Rightarrow> LocalRepository \<Rightarrow> VcsKind option"
  NewURL :: "string \<Rightarrow> string + string"
  url_Parse :: "string \<Rightarrow> string + string"
  ConvertGitURLHTTPToSSH :: "string \<Rightarrow> string + string"
  NewRemoteRepository :: "string \<Rightarrow> string + RemoteRepository"
  fmt_pointer :: "string \<Rightarrow> string"

section \<open>The get command\<close>

text \<open>
  \<^verbatim>\<open>getRemoteRepository\<close>, started after the events \<open>tr\<close>: the events after it, and
  how it ends. An error of \<^verbatim>\<open>os.Stat\<close> other than "does not exist" panics; a
  \<^verbatim>\<open>nil\<close> backend of the remote exits with status 1 in the clone branch; the update
  branch calls \<^verbatim>\<open>Update\<close> on the backend of the local repository unchecked, a nil
  dereference when there is none. The results of \<^verbatim>\<open>Clone\<close> and \<^verbatim>\<open>Update\<close> are dropped.
\<close>

definition getRemoteRepository ::
  "collaborators \<Rightarrow> RemoteRepository \<Rightarrow> bool \<Rightarrow> bool \<Rightarrow> event list \<Rightarrow> event list \<times> outcome" where
  "getRemoteRepository c remote doUpdate isShallow tr =
     (let remoteURL = URL remote;
          local = LocalRepositoryFromURL c tr remoteURL;
          path = FullPath local;
          tr1 = tr @ [Stat path]
      in case os_Stat c tr path of
           StatError err \<Rightarrow> (tr1, Panicked)
         | st \<Rightarrow>
             let newPath = (st = NotExist) in
             if newPath then
               let tr2 = tr1 @ [Log ''clone'' (remoteURL @ '' -> '' @ path)] in
               (case VCS remote of
                  None \<Rightarrow>
                    (tr2 @ [Log ''error''
                       (''Could not find version control system: '' @ remoteURL)],
                     Exited 1)
                | Some vcs \<Rightarrow> (tr2 @ [Clone vcs remoteURL path isShallow], Returned))
             else if doUpdate then
               let tr2 = tr1 @ [Log ''update'' path] in
               (case local_VCS c tr2 local of
                  None \<Rightarrow> (tr2, Panicked)
                | Some vcs \<Rightarrow> (tr2 @ [Update vcs path], Returned))
             else (tr1 @ [Log ''exists'' path], Returned))"

text \<open>
  \<^verbatim>\<open>doGet\<close>; \<open>argURL\<close>, \<open>doUpdate\<close>, \<open>isShallow\<close> and \<open>isSSH\<close> are read from the
  command line.
\<close>

definition doGet ::
  "collaborators \<Rightarrow> string \<Rightarrow> bool \<Rightarrow> bool \<Rightarrow> bool \<Rightarrow> event list \<Rightarrow> event list \<times> outcome" where
  "doGet c argURL doUpdate isShallow isSSH tr =
     (if argURL = [] then (tr @ [ShowCommandHelp ''get''], Exited 1)
      else case NewURL c argURL of
        Inl err \<Rightarrow> (tr, Died err)
      | Inr url0 \<Rightarrow>
          (case (if isSSH then ConvertGitURLHTTPToSSH c url0 else Inr url0) of
             Inl err \<Rightarrow> (tr, Died err)
           | Inr url \<Rightarrow>
               (case NewRemoteRepository c url of
                  Inl err \<Rightarrow> (tr, Died err)
                | Inr remote \<Rightarrow>
                    if IsValid remote = False
                    then (tr @ [Log ''error'' (''Not a valid repository: '' @ url)], Exited 1)
                    else getRemoteRepository c remote doUpdate isShallow tr)))"

text \<open>The path whose existence \<^verbatim>\<open>getRemoteRepository\<close> checks.\<close>

definition targetPath :: "collaborators \<Rightarrow> RemoteRepository \<Rightarrow> event list \<Rightarrow> string" where
  "targetPath c remote tr = FullPath (LocalRepositoryFromURL c tr (URL remote))"

text \<open>The events that are a call of a backend's \<^verbatim>\<open>Clone\<close>.\<close>

fun isClone :: "event \<Rightarrow> bool" where
  "isClone (Clone vcs url path shallow) = True"
| "isClone e = False"

section \<open>The which and look commands\<close>

text \<open>The callback of both commands: the repositories that match, in walk order.\<close>

definition reposFound :: "LocalRepository list \<Rightarrow> string \<Rightarrow> LocalRepository list" where
  "reposFound discovered name =
     walkLocalRepositories discovered
       (\<lambda>repo found. if Matches repo name then found @ [repo] else found) []"

text \<open>The \<^verbatim>\<open>default\<close> case of both commands.\<close>

definition moreThanOne :: "LocalRepository list \<Rightarrow> event list" where
  "moreThanOne found =
     Log ''error'' ''More than one repositories are found; Try more precise name''
     # map (\<lambda>repo. Log ''error'' (''- '' @ strings_Join (PathParts repo) ''/'')) found"

definition doWhich :: "LocalRepository list \<Rightarrow> string \<Rightarrow> event list \<times> outcome" where
  "doWhich discovered name =
     (if name = [] then ([ShowCommandHelp ''which''], Exited 1)
      else let found = reposFound discovered name in
        if length found = 0 then ([Log ''error'' ''No repository found''], Returned)
        else if length found = 1 then ([Println (FullPath (found ! 0))], Returned)
        else (moreThanOne found, Returned))"

text \<open>
  What \<^verbatim>\<open>doLook\<close> reads from the process and the system: \<^verbatim>\<open>runtime.GOOS\<close>, the two
  environment variables, and whether \<^verbatim>\<open>cmd.Start\<close>, \<^verbatim>\<open>os.Chdir\<close> and \<^verbatim>\<open>syscall.Exec\<close>
  succeed.
\<close>

record look_env =
  GOOS :: string
  COMSPEC :: string
  SHELL :: string
  start_ok :: "string \<Rightarrow> string \<Rightarrow> bool"
  chdir_ok :: "string \<Rightarrow> bool"
  exec_ok :: "string \<Rightarrow> bool"

definition doLook :: "look_env \<Rightarrow> LocalRepository list \<Rightarrow> string \<Rightarrow> event list \<times> outcome" where
  "doLook env discovered name =
     (if name = [] then ([ShowCommandHelp ''look''], Exited 1)
      else let found = reposFound discovered name in
        if length found = 0 then ([Log ''error'' ''No repository found''], Returned)
        else if length found = 1 then
          (if GOOS env = ''windows'' then
             (if start_ok env (COMSPEC env) (FullPath (found ! 0))
              then ([StartCmd (COMSPEC env) (FullPath (found ! 0)), Wait], Exited 0)
              else ([StartCmd (COMSPEC env) (FullPath (found ! 0))], Returned))
           else
             let shell = (if SHELL env = [] then ''/bin/sh'' else SHELL env);
                 tr = [Log ''cd'' (FullPath (found ! 0)), Chdir (FullPath (found ! 0))]
             in if \<not> chdir_ok env (FullPath (found ! 0)) then (tr, Panicked)
                else if exec_ok env shell then (tr @ [Exec shell], Execed)
                else (tr @ [Exec shell], Returned))
        else (moreThanOne found, Returned))"

section \<open>The import commands\<close>

text \<open>
  The field of \<^verbatim>\<open>github.Repository\<close> that the loop reads, a \<^verbatim>\<open>*string\<close>: \<open>None\<close> is
  \<^verbatim>\<open>nil\<close>.
\<close>

record github_Repository =
  HTMLURL :: "string option"

text \<open>
  The loop of \<^verbatim>\<open>doImportStarred\<close> over the repositories of one page. Each of the four
  failures of a target logs and goes on to the next (\<^verbatim>\<open>continue\<close>);
  \<^verbatim>\<open>utils.ErrorIf\<close> logs the error it is given and reports whether there was one.
  The loop goes on after \<^verbatim>\<open>getRemoteRepository\<close> only when that returns.
\<close>

fun doImportStarred_repositories ::
  "collaborators \<Rightarrow> bool \<Rightarrow> bool \<Rightarrow> bool \<Rightarrow> github_Repository list \<Rightarrow> event list
     \<Rightarrow> event list \<times> outcome" where
  "doImportStarred_repositories c doUpdate isSSH isShallow [] tr = (tr, Returned)"
| "doImportStarred_repositories c doUpdate isSSH isShallow (repo # rest) tr =
     (case HTMLURL repo of
        None \<Rightarrow> (tr, Panicked)
      | Some html \<Rightarrow>
          (case url_Parse c html of
             Inl err \<Rightarrow>
               doImportStarred_repositories c doUpdate isSSH isShallow rest
                 (tr @ [Log ''error''
                    (''Could not parse URL <'' @ fmt_pointer c html @ ''>: '' @ err)])
           | Inr url0 \<Rightarrow>
               (case (if isSSH then ConvertGitURLHTTPToSSH c url0 else Inr url0) of
                  Inl err \<Rightarrow>
                    doImportStarred_repositories c doUpdate isSSH isShallow rest
                      (tr @ [Log ''error''
                         (''Could not convert URL <'' @ fmt_pointer c html @ ''>: '' @ err)])
                | Inr url \<Rightarrow>
                    (case NewRemoteRepository c url of
                       Inl err \<Rightarrow>
                         doImportStarred_repositories c doUpdate isSSH isShallow rest
                           (tr @ [Log ''error'' err])
                     | Inr remote \<Rightarrow>
                         if IsValid remote = False then
                           doImportStarred_repositories c doUpdate isSSH isShallow rest
                             (tr @ [Log ''skip'' (''Not a valid repository: '' @ url)])
                         else
                           (case getRemoteRepository c remote doUpdate isShallow tr of
                              (tr', Returned) \<Rightarrow>
                                doImportStarred_repositories c doUpdate isSSH isShallow rest tr'
                            | (tr', out) \<Rightarrow> (tr', out))))))"

text \<open>
  The loop of \<^verbatim>\<open>doImportPocket\<close> over \<^verbatim>\<open>res.List\<close>, by the \<^verbatim>\<open>ResolvedURL\<close> of each
  item.
\<close>

fun doImportPocket_List ::
  "collaborators \<Rightarrow> bool \<Rightarrow> bool \<Rightarrow> string list \<Rightarrow> event list \<Rightarrow> event list \<times> outcome" where
  "doImportPocket_List c doUpdate isShallow [] tr = (tr, Returned)"
| "doImportPocket_List c doUpdate isShallow (resolvedURL # rest) tr =
     (case url_Parse c resolvedURL of
        Inl err \<Rightarrow>
          doImportPocket_List c doUpdate isShallow rest
            (tr @ [Log ''error'' (''Could not parse URL <'' @ resolvedURL @ ''>: '' @ err)])
      | Inr url \<Rightarrow>
          (case NewRemoteRepository c url of
             Inl err \<Rightarrow>
               doImportPocket_List c doUpdate isShallow rest (tr @ [Log ''error'' err])
           | Inr remote \<Rightarrow>
               if IsValid remote = False then
                 doImportPocket_List c doUpdate isShallow rest
                   (tr @ [Log ''skip'' (''Not a valid repository: '' @ url)])
               else
                 (case getRemoteRepository c remote doUpdate isShallow tr of
                    (tr', Returned) \<Rightarrow> doImportPocket_List c doUpdate isShallow rest tr'
                  | (tr', out) \<Rightarrow> (tr', out))))"

text \<open>The events that are log lines.\<close>

fun isLog :: "event \<Rightarrow> bool" where
  "isLog (Log label msg) = True"
| "isLog e = False"

text \<open>
  The recoverable failures of one target of a batch, by the checks of the loops in
  their order: the URL does not parse, the conversion to SSH fails (when asked for),
  the remote does not resolve, or the repository is not valid.
\<close>

definition targetFails :: "collaborators \<Rightarrow> bool \<Rightarrow> string \<Rightarrow> bool" where
  "targetFails c isSSH rawURL =
     (case url_Parse c rawURL of
        Inl err \<Rightarrow> True
      | Inr url0 \<Rightarrow>
          (case (if isSSH then ConvertGitURLHTTPToSSH c url0 else Inr url0) of
             Inl err \<Rightarrow> True
           | Inr url \<Rightarrow>
               (case NewRemoteRepository c url of
                  Inl err \<Rightarrow> True
                | Inr remote \<Rightarrow> \<not> IsValid remote)))"

section \<open>Examples\<close>

text \<open>
  The examples of \<^verbatim>\<open>doList\<close> list without a query, where the filter does not call
  \<^verbatim>\<open>NonHostPath\<close>; the closed ones pass \<open>RelPath\<close> for it, the text the spec has
  substring mode search.
\<close>

definition alice_foo :: LocalRepository where
  "alice_foo = repoAt ''/r1'' [''github.com'', ''alice'', ''foo'']"

definition bob_foo :: LocalRepository where
  "bob_foo = repoAt ''/r2'' [''github.com'', ''bob'', ''foo'']"

text \<open>
  A system with the root \<open>/r1\<close>, where \<open>github.com/alice/foo\<close> and
  \<open>example.com/alice/foo\<close> are cloned already and a path exists once it has been
  cloned to; only remotes at github.com resolve to a backend.
\<close>

definition demo :: collaborators where
  "demo =
     \<lparr>os_Stat = (\<lambda>tr path.
        if path = ''/r1/github.com/alice/foo'' \<or> path = ''/r1/example.com/alice/foo''
           \<or> list_ex (\<lambda>e. case e of Clone vcs url p shallow \<Rightarrow> p = path | _ \<Rightarrow> False) tr
        then Exists else NotExist),
      LocalRepositoryFromURL = (\<lambda>tr url.
        if url = ''https://github.com/alice/foo'' then repoAt ''/r1'' [''github.com'', ''alice'', ''foo'']
        else if url = ''https://github.com/bob/foo'' \<or> url = ''ssh://git@github.com/bob/foo''
          then repoAt ''/r1'' [''github.com'', ''bob'', ''foo'']
        else if url = ''https://example.com/alice/foo'' then repoAt ''/r1'' [''example.com'', ''alice'', ''foo'']
        else repoAt ''/r1'' [''example.com'', ''carol'', ''bar'']),
      local_VCS = (\<lambda>tr repo. Some Git),
      NewURL = (\<lambda>s. if s = ''::'' then Inl ''missing protocol scheme'' else Inr s),
      url_Parse = (\<lambda>s. if s = ''::'' then Inl ''missing protocol scheme'' else Inr s),
      ConvertGitURLHTTPToSSH = (\<lambda>url.
        if url = ''https://github.com/bob/foo'' then Inr ''ssh://git@github.com/bob/foo''
        else Inl ''unsupported scheme''),
      NewRemoteRepository = (\<lambda>url.
        if url = ''https://github.com/'' then Inl ''not a repository URL''
        else Inr \<lparr>URL = url, IsValid = (url \<noteq> ''https://github.com/alice''),
                  VCS = (if prefix ''https://github.com/'' url \<or> prefix ''ssh://git@github.com/'' url
                         then Some Git else None)\<rparr>),
      fmt_pointer = (\<lambda>s. ''0xc000010250'')\<rparr>"

definition remote_of :: "string \<Rightarrow> RemoteRepository" where
  "remote_of url = \<lparr>URL = url, IsValid = True,
     VCS = (if prefix ''https://github.com/'' url \<or> prefix ''ssh://git@github.com/'' url
                         then Some Git else None)\<rparr>"

definition demo_env :: look_env where
  "demo_env = \<lparr>GOOS = ''linux'', COMSPEC = [], SHELL = ''/bin/zsh'',
     start_ok = (\<lambda>cmd dir. True), chdir_ok = (\<lambda>dir. True), exec_ok = (\<lambda>shell. True)\<rparr>"

text \<open>
  Clones under two and under three roots. In \<open>two_roots\<close>,
  \<open>github.com/alice/foo\<close> is cloned under the primary root and once more under
  \<open>/r2\<close>; in \<open>three_roots\<close> it is cloned under \<open>/r2\<close> and \<open>/r3\<close> and not under the
  primary root.
\<close>

definition two_roots :: "LocalRepository list" where
  "two_roots = [repoAt ''/r1'' [''github.com'', ''alice'', ''foo''],
     repoAt ''/r1'' [''github.com'', ''bob'', ''foo''],
     repoAt ''/r2'' [''github.com'', ''alice'', ''foo'']]"

definition three_roots :: "LocalRepository list" where
  "three_roots = [repoAt ''/r1'' [''github.com'', ''bob'', ''foo''],
     repoAt ''/r2'' [''github.com'', ''alice'', ''foo''],
     repoAt ''/r3'' [''github.com'', ''alice'', ''foo'']]"


section \<open>Strings and the filter\<close>

lemma strings_Contains_iff:
  "strings_Contains s substr \<longleftrightarrow> (\<exists>ps ss. s = ps @ substr @ ss)"
proof (induction s)
  case Nil
  show ?case by auto
next
  case (Cons c s)
  have "(\<exists>ps ss. c # s = ps @ substr @ ss) \<longleftrightarrow> sublist substr (c # s)"
    by (simp add: sublist_def)
  also have "\<dots> \<longleftrightarrow> prefix substr (c # s) \<or> sublist substr s"
    by (rule sublist_Cons_right)
  also have "\<dots> \<longleftrightarrow> prefix substr (c # s) \<or> (\<exists>ps ss. s = ps @ substr @ ss)"
    by (simp add: sublist_def)
  finally show ?case using Cons.IH by simp
qed

lemma listed_filter_aux:
  "walkLocalRepositories discovered
       (\<lambda>repo repos.
          if filterFn nonHostPath query exact repo = False then repos else repos @ [repo]) acc
   = acc @ filter (filterFn nonHostPath query exact) discovered"
  by (induction discovered arbitrary: acc) auto

lemma listed_filter:
  "listed nonHostPath discovered query exact
     = filter (filterFn nonHostPath query exact) discovered"
  using listed_filter_aux [of discovered nonHostPath query exact "[]"] by (simp add: listed_def)

lemma firstUnique_Some:
  "firstUnique subpathCount ps = Some p \<Longrightarrow> p \<in> set ps \<and> at subpathCount p = 1"
  by (induction ps) (auto split: if_splits)

lemma printedFor_Some:
  "printedFor u subpathCount reposCount repo = Some p \<Longrightarrow> p \<in> set (Subpaths repo)"
  by (auto simp: printedFor_def split: if_splits dest: firstUnique_Some)

lemma printUnique_subset:
  "set (printUnique u subpathCount reposCount repos) \<subseteq> set (concat (map Subpaths repos))"
  by (induction repos) (auto split: option.splits dest: printedFor_Some)

section \<open>The scenarios of unique listing\<close>

text \<open>
  C4. With roots \<open>[/r1, /r2]\<close>: when \<open>/r1/github.com/alice/foo\<close> and
  \<open>/r2/github.com/bob/foo\<close> both exist, unique listing prints \<open>alice/foo\<close> and
  \<open>bob/foo\<close>, and \<open>foo\<close> for neither; when only \<open>/r1/github.com/alice/foo\<close> exists, it
  prints \<open>foo\<close>.
\<close>

theorem scenario_unique_listing:
  "doList nonHostPath (IsUnderPrimaryRoot [''/r1'', ''/r2'']) [alice_foo, bob_foo] [] False False True
     = [''alice/foo'', ''bob/foo'']
   \<and> doList nonHostPath (IsUnderPrimaryRoot [''/r1'', ''/r2'']) [alice_foo] [] False False True
     = [''foo'']"
  by (simp add: doList_def listed_def filterFn_def printedFor_def at_def
      Subpaths_def alice_foo_def bob_foo_def repoAt_def IsUnderPrimaryRoot_def)

section \<open>Substring matching\<close>

text \<open>
  What substring mode searches is the result of \<^verbatim>\<open>NonHostPath\<close>: a repository
  passes the filter exactly when that text contains the query as a contiguous
  substring (the empty query takes the list-all filter, which agrees).
\<close>

lemma substring_mode_searches_nonHostPath:
  "filterFn nonHostPath query False repo \<longleftrightarrow> (\<exists>ps ss. nonHostPath repo = ps @ query @ ss)"
  by (cases "query = []") (auto simp: filterFn_def strings_Contains_iff)

text \<open>
  So the filter agrees with containment in \<open>relPath\<close> for every query exactly when
  \<^verbatim>\<open>NonHostPath\<close> returns the \<open>relPath\<close> of the repository.
\<close>

lemma substring_mode_relPath_iff:
  "(\<forall>query. filterFn nonHostPath query False repo
       \<longleftrightarrow> (\<exists>ps ss. RelPath repo = ps @ query @ ss))
   \<longleftrightarrow> nonHostPath repo = RelPath repo"
proof
  assume "nonHostPath repo = RelPath repo"
  then show "\<forall>query. filterFn nonHostPath query False repo
       \<longleftrightarrow> (\<exists>ps ss. RelPath repo = ps @ query @ ss)"
    by (simp add: substring_mode_searches_nonHostPath)
next
  assume "\<forall>query. filterFn nonHostPath query False repo
       \<longleftrightarrow> (\<exists>ps ss. RelPath repo = ps @ query @ ss)"
  then have eq: "sublist query (nonHostPath repo) \<longleftrightarrow> sublist query (RelPath repo)" for query
    by (simp add: substring_mode_searches_nonHostPath sublist_def)
  have "sublist (nonHostPath repo) (RelPath repo)"
    using eq [of "nonHostPath repo"] by simp
  moreover have "sublist (RelPath repo) (nonHostPath repo)"
    using eq [of "RelPath repo"] by simp
  ultimately show "nonHostPath repo = RelPath repo"
    by (rule sublist_order.order_antisym)
qed

section \<open>Unique listing and the full-path flag\<close>

lemma strings_Join_relative:
  "x \<noteq> [] \<Longrightarrow> \<not> prefix ''/'' x \<Longrightarrow> \<not> prefix ''/'' (strings_Join (x # xs) ''/'')"
  by (cases xs; cases x) simp_all

lemma joined_suffix_relative:
  assumes "\<forall>part\<in>set parts. part \<noteq> [] \<and> \<not> prefix ''/'' part"
    and "p \<in> set (map (\<lambda>ps. strings_Join ps ''/'') (tl (suffixes parts)))"
  shows "\<not> prefix ''/'' p"
  using assms
proof (induction parts)
  case Nil
  then show ?case by simp
next
  case (Cons x xs)
  from Cons.prems(2) have "p \<in> set (map (\<lambda>ps. strings_Join ps ''/'') (tl (suffixes xs)))
      \<or> p = strings_Join (x # xs) ''/''"
    by auto
  then show ?case
  proof
    assume "p \<in> set (map (\<lambda>ps. strings_Join ps ''/'') (tl (suffixes xs)))"
    with Cons.IH Cons.prems(1) show ?thesis by simp
  next
    assume "p = strings_Join (x # xs) ''/''"
    with Cons.prems(1) show ?thesis
      using strings_Join_relative [of x xs] by simp
  qed
qed

lemma Subpaths_relative:
  "\<forall>part\<in>set (PathParts repo). part \<noteq> [] \<and> \<not> prefix ''/'' part \<Longrightarrow>
   p \<in> set (Subpaths repo) \<Longrightarrow> \<not> prefix ''/'' p"
  unfolding Subpaths_def by (rule joined_suffix_relative)

text \<open>
  C10. In unique-listing mode the full-path flag has no effect: for every set of
  repositories, query and flags, the lines printed with the unique option are the
  same with and without the full-path flag, and each one is a Subpath of a listed
  repository; where full paths are absolute and no path part is empty or starts
  with the separator, no printed line is the full path of a repository.
\<close>

theorem unique_listing_ignores_full_path_flag:
  "doList nonHostPath u discovered query exact True True = doList nonHostPath u discovered query exact False True
   \<and> set (doList nonHostPath u discovered query exact printFullPaths True)
       \<subseteq> set (concat (map Subpaths (listed nonHostPath discovered query exact)))
   \<and> set (listed nonHostPath discovered query exact) \<subseteq> set discovered
   \<and> ((\<forall>repo\<in>set discovered. prefix ''/'' (FullPath repo)
          \<and> (\<forall>part\<in>set (PathParts repo). part \<noteq> [] \<and> \<not> prefix ''/'' part)) \<longrightarrow>
        set (doList nonHostPath u discovered query exact printFullPaths True) \<inter> FullPath ` set discovered = {})"
proof (intro conjI impI)
  show "doList nonHostPath u discovered query exact True True = doList nonHostPath u discovered query exact False True"
    by (simp add: doList_def)
  show sub: "set (doList nonHostPath u discovered query exact printFullPaths True)
       \<subseteq> set (concat (map Subpaths (listed nonHostPath discovered query exact)))"
    by (auto simp: doList_def Let_def split: prod.splits dest: subsetD [OF printUnique_subset])
  show l: "set (listed nonHostPath discovered query exact) \<subseteq> set discovered"
    by (auto simp: listed_filter)
  assume a: "\<forall>repo\<in>set discovered. prefix ''/'' (FullPath repo)
          \<and> (\<forall>part\<in>set (PathParts repo). part \<noteq> [] \<and> \<not> prefix ''/'' part)"
  show "set (doList nonHostPath u discovered query exact printFullPaths True) \<inter> FullPath ` set discovered = {}"
  proof (rule ccontr)
    assume "set (doList nonHostPath u discovered query exact printFullPaths True) \<inter> FullPath ` set discovered \<noteq> {}"
    then obtain p full where p: "p \<in> set (doList nonHostPath u discovered query exact printFullPaths True)"
      and full: "full \<in> set discovered" "p = FullPath full"
      by auto
    from p sub obtain repo where repo: "repo \<in> set (listed nonHostPath discovered query exact)"
      "p \<in> set (Subpaths repo)"
      by auto
    with l a have "\<not> prefix ''/'' p"
      by (intro Subpaths_relative [of repo p]) auto
    moreover from a full have "prefix ''/'' p"
      by simp
    ultimately show False by simp
  qed
qed

theorem unique_listing_ignores_full_path_flag_witness:
  "doList RelPath (IsUnderPrimaryRoot [''/r1'', ''/r2'']) [alice_foo, bob_foo] [] False True True
     = [''alice/foo'', ''bob/foo'']
   \<and> doList RelPath (IsUnderPrimaryRoot [''/r1'', ''/r2'']) [alice_foo, bob_foo] [] False True False
     = [''/r1/github.com/alice/foo'', ''/r2/github.com/bob/foo'']
   \<and> set (doList RelPath (IsUnderPrimaryRoot [''/r1'', ''/r2'']) [alice_foo, bob_foo] [] False True True)
       \<inter> FullPath ` set [alice_foo, bob_foo] = {}"
proof -
  have h: "\<forall>repo\<in>set [alice_foo, bob_foo]. prefix ''/'' (FullPath repo)
          \<and> (\<forall>part\<in>set (PathParts repo). part \<noteq> [] \<and> \<not> prefix ''/'' part)"
    by (simp add: alice_foo_def bob_foo_def repoAt_def)
  have "set (doList RelPath (IsUnderPrimaryRoot [''/r1'', ''/r2'']) [alice_foo, bob_foo] [] False True True)
       \<inter> FullPath ` set [alice_foo, bob_foo] = {}"
    using unique_listing_ignores_full_path_flag [of RelPath "IsUnderPrimaryRoot [''/r1'', ''/r2'']"
        "[alice_foo, bob_foo]" "[]" False True] h
    by blast
  moreover have "doList RelPath (IsUnderPrimaryRoot [''/r1'', ''/r2'']) [alice_foo, bob_foo] [] False True True
     = [''alice/foo'', ''bob/foo'']"
    by (simp add: doList_def listed_def filterFn_def printedFor_def at_def
      Subpaths_def alice_foo_def bob_foo_def repoAt_def IsUnderPrimaryRoot_def)
  moreover have "doList RelPath (IsUnderPrimaryRoot [''/r1'', ''/r2'']) [alice_foo, bob_foo] [] False True False
     = [''/r1/github.com/alice/foo'', ''/r2/github.com/bob/foo'']"
    by (simp add: doList_def listed_def filterFn_def alice_foo_def bob_foo_def repoAt_def)
  ultimately show ?thesis by blast
qed

section \<open>Clone, update or neither\<close>

text \<open>
  C2. \<^verbatim>\<open>getRemoteRepository\<close> splits three ways on the existence of the target path:
  when the target is absent, it calls \<^verbatim>\<open>Clone(remoteURL, path, isShallow)\<close> of the
  remote's backend; when the target is present and update is requested, it calls
  \<^verbatim>\<open>Update(path)\<close> of the backend at hand; when the target is present and update is
  not requested, it logs \<open>exists\<close> and calls neither.
\<close>

theorem sync_three_way:
  "(os_Stat c tr (targetPath c remote tr) = NotExist \<and> VCS remote = Some vcs \<longrightarrow>
      getRemoteRepository c remote doUpdate isShallow tr =
        (tr @ [Stat (targetPath c remote tr),
               Log ''clone'' (URL remote @ '' -> '' @ targetPath c remote tr),
               Clone vcs (URL remote) (targetPath c remote tr) isShallow], Returned))
   \<and> (os_Stat c tr (targetPath c remote tr) = Exists \<and> doUpdate
        \<and> local_VCS c (tr @ [Stat (targetPath c remote tr), Log ''update'' (targetPath c remote tr)])
             (LocalRepositoryFromURL c tr (URL remote)) = Some vcs \<longrightarrow>
      getRemoteRepository c remote doUpdate isShallow tr =
        (tr @ [Stat (targetPath c remote tr), Log ''update'' (targetPath c remote tr),
               Update vcs (targetPath c remote tr)], Returned))
   \<and> (os_Stat c tr (targetPath c remote tr) = Exists \<and> \<not> doUpdate \<longrightarrow>
      getRemoteRepository c remote doUpdate isShallow tr =
        (tr @ [Stat (targetPath c remote tr), Log ''exists'' (targetPath c remote tr)],
         Returned))"
  by (simp add: getRemoteRepository_def targetPath_def Let_def)

theorem sync_three_way_witness:
  "os_Stat demo [] ''/r1/github.com/bob/foo'' = NotExist
   \<and> os_Stat demo [] ''/r1/github.com/alice/foo'' = Exists
   \<and> getRemoteRepository demo (remote_of ''https://github.com/bob/foo'') False True [] =
     ([Stat ''/r1/github.com/bob/foo'',
       Log ''clone'' ''https://github.com/bob/foo -> /r1/github.com/bob/foo'',
       Clone Git ''https://github.com/bob/foo'' ''/r1/github.com/bob/foo'' True], Returned)
   \<and> getRemoteRepository demo (remote_of ''https://github.com/alice/foo'') True False [] =
     ([Stat ''/r1/github.com/alice/foo'', Log ''update'' ''/r1/github.com/alice/foo'',
       Update Git ''/r1/github.com/alice/foo''], Returned)
   \<and> getRemoteRepository demo (remote_of ''https://github.com/alice/foo'') False False [] =
     ([Stat ''/r1/github.com/alice/foo'', Log ''exists'' ''/r1/github.com/alice/foo''],
      Returned)"
  using sync_three_way [of demo "[]" "remote_of ''https://github.com/bob/foo''" Git False True]
    sync_three_way [of demo "[]" "remote_of ''https://github.com/alice/foo''" Git True False]
    sync_three_way [of demo "[]" "remote_of ''https://github.com/alice/foo''" Git False False]
  by (simp add: demo_def remote_of_def targetPath_def repoAt_def)

text \<open>
  C9. The check for an unknown VCS guards only the clone branch: when the target path
  exists and update is requested, the backend called is the one of the local
  repository, \<^verbatim>\<open>local.VCS()\<close>, whatever the remote's backend is (or if it has none),
  and \<^verbatim>\<open>Update\<close> is called on it unchecked: without a backend the command panics
  on the nil dereference rather than logging an error and exiting.
\<close>

theorem update_uses_local_backend_unguarded:
  "os_Stat c tr (targetPath c remote tr) = Exists \<Longrightarrow>
   getRemoteRepository c remote True isShallow tr =
     (case local_VCS c (tr @ [Stat (targetPath c remote tr), Log ''update'' (targetPath c remote tr)])
             (LocalRepositoryFromURL c tr (URL remote)) of
        None \<Rightarrow>
          (tr @ [Stat (targetPath c remote tr), Log ''update'' (targetPath c remote tr)], Panicked)
      | Some vcs \<Rightarrow>
          (tr @ [Stat (targetPath c remote tr), Log ''update'' (targetPath c remote tr),
                 Update vcs (targetPath c remote tr)], Returned))
   \<and> getRemoteRepository c (remote\<lparr>VCS := v\<rparr>) True isShallow tr =
       getRemoteRepository c remote True isShallow tr"
  by (simp add: getRemoteRepository_def targetPath_def Let_def split: option.splits)

theorem update_uses_local_backend_unguarded_witness:
  "getRemoteRepository demo (remote_of ''https://example.com/alice/foo'') True False [] =
     ([Stat ''/r1/example.com/alice/foo'', Log ''update'' ''/r1/example.com/alice/foo'',
       Update Git ''/r1/example.com/alice/foo''], Returned)
   \<and> VCS (remote_of ''https://example.com/alice/foo'') = None"
proof -
  have h: "os_Stat demo [] (targetPath demo (remote_of ''https://example.com/alice/foo'') [])
    = Exists"
    by (simp add: demo_def remote_of_def targetPath_def repoAt_def)
  show ?thesis
    using update_uses_local_backend_unguarded [OF h, of False None]
    by (simp add: demo_def remote_of_def targetPath_def repoAt_def)
qed

section \<open>Invalid and unknown remotes\<close>

lemma getRemoteRepository_no_clone:
  assumes "VCS remote = None"
  shows "\<exists>evs. fst (getRemoteRepository c remote doUpdate isShallow tr) = tr @ evs
           \<and> \<not> list_ex isClone evs"
proof (cases "os_Stat c tr (targetPath c remote tr)")
  case Exists
  then show ?thesis
    by (cases "local_VCS c (tr @ [Stat (targetPath c remote tr),
          Log ''update'' (targetPath c remote tr)]) (LocalRepositoryFromURL c tr (URL remote))")
      (simp_all add: getRemoteRepository_def targetPath_def Let_def)
next
  case NotExist
  with assms show ?thesis
    by (simp add: getRemoteRepository_def targetPath_def Let_def)
next
  case (StatError err)
  then show ?thesis
    by (simp add: getRemoteRepository_def targetPath_def Let_def)
qed

text \<open>
  C3, as the code has it. A remote whose \<^verbatim>\<open>IsValid\<close> is false never reaches
  \<^verbatim>\<open>getRemoteRepository\<close>: \<^verbatim>\<open>doGet\<close> logs an error and exits with status 1, with no
  \<^verbatim>\<open>os.Stat\<close>, clone or update. A remote whose backend is \<^verbatim>\<open>nil\<close> is never cloned:
  when the target is absent, \<^verbatim>\<open>getRemoteRepository\<close> logs an error and exits with
  status 1 after the existence check, and no run of it calls \<^verbatim>\<open>Clone\<close>.
\<close>

theorem invalid_never_synced_unknown_never_cloned:
  "(argURL \<noteq> [] \<and> NewURL c argURL = Inr url0
      \<and> (if isSSH then ConvertGitURLHTTPToSSH c url0 else Inr url0) = Inr url
      \<and> NewRemoteRepository c url = Inr remote \<and> IsValid remote = False \<longrightarrow>
        doGet c argURL doUpdate isShallow isSSH tr =
          (tr @ [Log ''error'' (''Not a valid repository: '' @ url)], Exited 1))
   \<and> (VCS remote = None \<and> os_Stat c tr (targetPath c remote tr) = NotExist \<longrightarrow>
        getRemoteRepository c remote doUpdate isShallow tr =
          (tr @ [Stat (targetPath c remote tr),
                 Log ''clone'' (URL remote @ '' -> '' @ targetPath c remote tr),
                 Log ''error'' (''Could not find version control system: '' @ URL remote)],
           Exited 1))
   \<and> (VCS remote = None \<longrightarrow>
        (\<exists>evs. fst (getRemoteRepository c remote doUpdate isShallow tr) = tr @ evs
           \<and> \<not> list_ex isClone evs))"
proof (intro conjI impI)
  assume "argURL \<noteq> [] \<and> NewURL c argURL = Inr url0
      \<and> (if isSSH then ConvertGitURLHTTPToSSH c url0 else Inr url0) = Inr url
      \<and> NewRemoteRepository c url = Inr remote \<and> IsValid remote = False"
  then show "doGet c argURL doUpdate isShallow isSSH tr =
          (tr @ [Log ''error'' (''Not a valid repository: '' @ url)], Exited 1)"
    by (simp add: doGet_def)
next
  assume "VCS remote = None \<and> os_Stat c tr (targetPath c remote tr) = NotExist"
  then show "getRemoteRepository c remote doUpdate isShallow tr =
          (tr @ [Stat (targetPath c remote tr),
                 Log ''clone'' (URL remote @ '' -> '' @ targetPath c remote tr),
                 Log ''error'' (''Could not find version control system: '' @ URL remote)],
           Exited 1)"
    by (simp add: getRemoteRepository_def targetPath_def Let_def)
next
  assume "VCS remote = None"
  then show "\<exists>evs. fst (getRemoteRepository c remote doUpdate isShallow tr) = tr @ evs
           \<and> \<not> list_ex isClone evs"
    by (rule getRemoteRepository_no_clone)
qed

theorem invalid_never_synced_unknown_never_cloned_witness:
  "NewRemoteRepository demo ''https://github.com/alice''
     = Inr \<lparr>URL = ''https://github.com/alice'', IsValid = False, VCS = Some Git\<rparr>
   \<and> VCS (remote_of ''https://example.com/carol/bar'') = None
   \<and> os_Stat demo [] ''/r1/example.com/carol/bar'' = NotExist
   \<and> doGet demo ''https://github.com/alice'' True False False [] =
     ([Log ''error'' ''Not a valid repository: https://github.com/alice''], Exited 1)
   \<and> getRemoteRepository demo (remote_of ''https://example.com/carol/bar'') True False [] =
     ([Stat ''/r1/example.com/carol/bar'',
       Log ''clone'' ''https://example.com/carol/bar -> /r1/example.com/carol/bar'',
       Log ''error'' ''Could not find version control system: https://example.com/carol/bar''],
      Exited 1)"
  using invalid_never_synced_unknown_never_cloned [of "''https://github.com/alice''" demo
      "''https://github.com/alice''" False "''https://github.com/alice''"
      "\<lparr>URL = ''https://github.com/alice'', IsValid = False, VCS = Some Git\<rparr>" True False "[]"]
    invalid_never_synced_unknown_never_cloned [of "''x''" demo "''x''" False "''x''"
      "remote_of ''https://example.com/carol/bar''" True False "[]"]
  by (simp add: demo_def remote_of_def targetPath_def repoAt_def)

text \<open>
  C3 as the claim states it fails for a valid remote without a backend whose target
  exists: with update requested, \<^verbatim>\<open>doGet\<close> reaches \<^verbatim>\<open>os.Stat\<close> and calls \<^verbatim>\<open>Update\<close>,
  and returns without an error.
\<close>

theorem unknown_vcs_update_counterexample:
  "NewRemoteRepository demo ''https://example.com/alice/foo''
     = Inr (remote_of ''https://example.com/alice/foo'')
   \<and> VCS (remote_of ''https://example.com/alice/foo'') = None
   \<and> doGet demo ''https://example.com/alice/foo'' True False False [] =
     ([Stat ''/r1/example.com/alice/foo'', Log ''update'' ''/r1/example.com/alice/foo'',
       Update Git ''/r1/example.com/alice/foo''], Returned)"
  by (simp add: doGet_def getRemoteRepository_def demo_def remote_of_def repoAt_def Let_def)

section \<open>Resolving a single target\<close>

lemma reposFound_filter_aux:
  "walkLocalRepositories discovered
       (\<lambda>repo found. if Matches repo name then found @ [repo] else found) acc
   = acc @ filter (\<lambda>repo. Matches repo name) discovered"
  by (induction discovered arbitrary: acc) auto

lemma reposFound_filter:
  "reposFound discovered name = filter (\<lambda>repo. Matches repo name) discovered"
  by (simp add: reposFound_def reposFound_filter_aux)

text \<open>
  C7. For every name given to \<^verbatim>\<open>which\<close> or \<^verbatim>\<open>look\<close>: when no repository matches,
  an error is logged; when exactly one matches, \<^verbatim>\<open>which\<close> prints its full path and
  \<^verbatim>\<open>look\<close> starts a shell in its full path (where the system lets it); when more than
  one match, an error is logged that lists the path parts of every candidate, and none
  is printed or entered. (With no name given, both show the usage and exit with
  status 1.)
\<close>

theorem single_target_resolution:
  assumes "name \<noteq> []"
  shows "(filter (\<lambda>repo. Matches repo name) discovered = [] \<longrightarrow>
            doWhich discovered name = ([Log ''error'' ''No repository found''], Returned)
            \<and> doLook env discovered name = ([Log ''error'' ''No repository found''], Returned))
   \<and> (filter (\<lambda>repo. Matches repo name) discovered = [repo] \<longrightarrow>
        doWhich discovered name = ([Println (FullPath repo)], Returned)
        \<and> (GOOS env \<noteq> ''windows'' \<and> chdir_ok env (FullPath repo)
             \<and> exec_ok env (if SHELL env = [] then ''/bin/sh'' else SHELL env) \<longrightarrow>
           doLook env discovered name =
             ([Log ''cd'' (FullPath repo), Chdir (FullPath repo),
               Exec (if SHELL env = [] then ''/bin/sh'' else SHELL env)], Execed))
        \<and> (GOOS env = ''windows'' \<and> start_ok env (COMSPEC env) (FullPath repo) \<longrightarrow>
           doLook env discovered name =
             ([StartCmd (COMSPEC env) (FullPath repo), Wait], Exited 0)))
   \<and> (length (filter (\<lambda>repo. Matches repo name) discovered) > 1 \<longrightarrow>
        doWhich discovered name =
          (Log ''error'' ''More than one repositories are found; Try more precise name''
           # map (\<lambda>repo. Log ''error'' (''- '' @ strings_Join (PathParts repo) ''/''))
               (filter (\<lambda>repo. Matches repo name) discovered), Returned)
        \<and> doLook env discovered name = doWhich discovered name)"
  using assms
  by (simp add: doWhich_def doLook_def reposFound_filter moreThanOne_def Let_def)

theorem single_target_resolution_witness:
  "filter (\<lambda>repo. Matches repo ''carol'') [alice_foo, bob_foo] = []
   \<and> filter (\<lambda>repo. Matches repo ''alice/foo'') [alice_foo, bob_foo] = [alice_foo]
   \<and> filter (\<lambda>repo. Matches repo ''foo'') [alice_foo, bob_foo] = [alice_foo, bob_foo]
   \<and> doWhich [alice_foo, bob_foo] ''carol'' = ([Log ''error'' ''No repository found''], Returned)
   \<and> doWhich [alice_foo, bob_foo] ''alice/foo'' = ([Println ''/r1/github.com/alice/foo''], Returned)
   \<and> doLook demo_env [alice_foo, bob_foo] ''alice/foo'' =
       ([Log ''cd'' ''/r1/github.com/alice/foo'', Chdir ''/r1/github.com/alice/foo'',
         Exec ''/bin/zsh''], Execed)
   \<and> doLook demo_env [alice_foo, bob_foo] ''foo'' =
       ([Log ''error'' ''More than one repositories are found; Try more precise name'',
         Log ''error'' ''- github.com/alice/foo'', Log ''error'' ''- github.com/bob/foo''],
        Returned)"
proof -
  have n: "''carol'' \<noteq> []" "''alice/foo'' \<noteq> []" "''foo'' \<noteq> []"
    by simp_all
  show ?thesis
    using single_target_resolution [OF n(1), of "[alice_foo, bob_foo]" demo_env alice_foo]
      single_target_resolution [OF n(2), of "[alice_foo, bob_foo]" demo_env alice_foo]
      single_target_resolution [OF n(3), of "[alice_foo, bob_foo]" demo_env alice_foo]
    by (simp add: Matches_def alice_foo_def bob_foo_def repoAt_def demo_env_def suffix_def)
qed

section \<open>Batch import\<close>

lemma starred_step:
  assumes "HTMLURL repo = Some html" and "targetFails c isSSH html"
  shows "\<exists>label msg. doImportStarred_repositories c doUpdate isSSH isShallow (repo # rest) tr
           = doImportStarred_repositories c doUpdate isSSH isShallow rest (tr @ [Log label msg])"
proof (cases "url_Parse c html")
  case (Inl err)
  with assms(1) show ?thesis by (simp, blast)
next
  case p: (Inr url0)
  show ?thesis
  proof (cases "if isSSH then ConvertGitURLHTTPToSSH c url0 else Inr url0")
    case (Inl err)
    with assms(1) p show ?thesis by (simp, blast)
  next
    case u: (Inr url)
    show ?thesis
    proof (cases "NewRemoteRepository c url")
      case (Inl err)
      with assms(1) p u show ?thesis by (simp, blast)
    next
      case (Inr remote)
      with assms p u have "IsValid remote = False"
        by (simp add: targetFails_def)
      with assms(1) p u Inr show ?thesis by (simp, blast)
    qed
  qed
qed

lemma pocket_step:
  assumes "targetFails c False resolvedURL"
  shows "\<exists>label msg. doImportPocket_List c doUpdate isShallow (resolvedURL # rest) tr
           = doImportPocket_List c doUpdate isShallow rest (tr @ [Log label msg])"
proof (cases "url_Parse c resolvedURL")
  case (Inl err)
  then show ?thesis by (simp, blast)
next
  case p: (Inr url)
  show ?thesis
  proof (cases "NewRemoteRepository c url")
    case (Inl err)
    with p show ?thesis by (simp, blast)
  next
    case (Inr remote)
    with assms p have "IsValid remote = False"
      by (simp add: targetFails_def)
    with p Inr show ?thesis by (simp, blast)
  qed
qed

lemma starred_all_fail:
  "list_all (\<lambda>repo. case HTMLURL repo of None \<Rightarrow> False | Some html \<Rightarrow> targetFails c isSSH html) repos
   \<Longrightarrow> \<exists>evs. doImportStarred_repositories c doUpdate isSSH isShallow repos tr = (tr @ evs, Returned)
         \<and> length evs = length repos \<and> list_all isLog evs"
proof (induction repos arbitrary: tr)
  case Nil
  show ?case by simp
next
  case (Cons repo rest)
  from Cons.prems obtain html where h: "HTMLURL repo = Some html" "targetFails c isSSH html"
    by (auto split: option.splits)
  from starred_step [OF h] obtain label msg where
    s: "doImportStarred_repositories c doUpdate isSSH isShallow (repo # rest) tr
          = doImportStarred_repositories c doUpdate isSSH isShallow rest (tr @ [Log label msg])"
    by blast
  from Cons.prems have "list_all (\<lambda>repo. case HTMLURL repo of None \<Rightarrow> False
      | Some html \<Rightarrow> targetFails c isSSH html) rest"
    by simp
  from Cons.IH [OF this, of "tr @ [Log label msg]"] obtain evs where
    e: "doImportStarred_repositories c doUpdate isSSH isShallow rest (tr @ [Log label msg])
          = ((tr @ [Log label msg]) @ evs, Returned)"
      "length evs = length rest" "list_all isLog evs"
    by blast
  have "doImportStarred_repositories c doUpdate isSSH isShallow (repo # rest) tr
      = (tr @ (Log label msg # evs), Returned)"
    using s e(1) by simp
  moreover have "length (Log label msg # evs) = length (repo # rest)"
    using e(2) by simp
  moreover have "list_all isLog (Log label msg # evs)"
    using e(3) by simp
  ultimately show ?case by blast
qed

lemma pocket_all_fail:
  "list_all (targetFails c False) urls
   \<Longrightarrow> \<exists>evs. doImportPocket_List c doUpdate isShallow urls tr = (tr @ evs, Returned)
         \<and> length evs = length urls \<and> list_all isLog evs"
proof (induction urls arbitrary: tr)
  case Nil
  show ?case by simp
next
  case (Cons u rest)
  from Cons.prems have h: "targetFails c False u" and r: "list_all (targetFails c False) rest"
    by simp_all
  from pocket_step [OF h] obtain label msg where
    s: "doImportPocket_List c doUpdate isShallow (u # rest) tr
          = doImportPocket_List c doUpdate isShallow rest (tr @ [Log label msg])"
    by blast
  from Cons.IH [OF r, of "tr @ [Log label msg]"] obtain evs where
    e: "doImportPocket_List c doUpdate isShallow rest (tr @ [Log label msg])
          = ((tr @ [Log label msg]) @ evs, Returned)"
      "length evs = length rest" "list_all isLog evs"
    by blast
  have "doImportPocket_List c doUpdate isShallow (u # rest) tr
      = (tr @ (Log label msg # evs), Returned)"
    using s e(1) by simp
  moreover have "length (Log label msg # evs) = length (u # rest)"
    using e(2) by simp
  moreover have "list_all isLog (Log label msg # evs)"
    using e(3) by simp
  ultimately show ?case by blast
qed

text \<open>
  C8. In a batch import a recoverable failure of one target (its URL does not parse,
  the conversion to SSH fails, the remote does not resolve, the repository is not
  valid) never aborts the batch: the loop of \<^verbatim>\<open>doImportStarred\<close> and the loop of
  \<^verbatim>\<open>doImportPocket\<close> log one line for the target and go on with the next target; a
  batch in which every target fails so returns, having logged one line per target.
\<close>

theorem batch_import_continues:
  "(HTMLURL repo = Some html \<and> targetFails c isSSH html \<longrightarrow>
      (\<exists>label msg. doImportStarred_repositories c doUpdate isSSH isShallow (repo # rest) tr
         = doImportStarred_repositories c doUpdate isSSH isShallow rest (tr @ [Log label msg])))
   \<and> (targetFails c False resolvedURL \<longrightarrow>
      (\<exists>label msg. doImportPocket_List c doUpdate isShallow (resolvedURL # urls) tr
         = doImportPocket_List c doUpdate isShallow urls (tr @ [Log label msg])))
   \<and> (list_all (\<lambda>repo. case HTMLURL repo of None \<Rightarrow> False
                              | Some html \<Rightarrow> targetFails c isSSH html) repos \<longrightarrow>
      (\<exists>evs. doImportStarred_repositories c doUpdate isSSH isShallow repos tr
                = (tr @ evs, Returned)
         \<and> length evs = length repos \<and> list_all isLog evs))
   \<and> (list_all (targetFails c False) urls \<longrightarrow>
      (\<exists>evs. doImportPocket_List c doUpdate isShallow urls tr = (tr @ evs, Returned)
         \<and> length evs = length urls \<and> list_all isLog evs))"
  using starred_step [of repo html c isSSH doUpdate isShallow rest tr]
    pocket_step [of c resolvedURL doUpdate isShallow urls tr]
    starred_all_fail [of c isSSH repos doUpdate isShallow tr]
    pocket_all_fail [of c urls doUpdate isShallow tr]
  by blast

theorem batch_import_continues_witness:
  "targetFails demo True ''::'' \<and> targetFails demo True ''https://example.com/alice/foo''
   \<and> targetFails demo False ''https://github.com/''
   \<and> targetFails demo False ''https://github.com/alice''
   \<and> doImportStarred_repositories demo False True True
      [\<lparr>HTMLURL = Some ''::''\<rparr>, \<lparr>HTMLURL = Some ''https://example.com/alice/foo''\<rparr>,
       \<lparr>HTMLURL = Some ''https://github.com/bob/foo''\<rparr>] []
     = ([Log ''error'' ''Could not parse URL <0xc000010250>: missing protocol scheme'',
         Log ''error'' ''Could not convert URL <0xc000010250>: unsupported scheme'',
         Stat ''/r1/github.com/bob/foo'',
         Log ''clone'' ''ssh://git@github.com/bob/foo -> /r1/github.com/bob/foo'',
         Clone Git ''ssh://git@github.com/bob/foo'' ''/r1/github.com/bob/foo'' True], Returned)
   \<and> doImportPocket_List demo False False
        [''https://github.com/'', ''https://github.com/alice'', ''::'',
         ''https://github.com/bob/foo''] []
     = ([Log ''error'' ''not a repository URL'',
         Log ''skip'' ''Not a valid repository: https://github.com/alice'',
         Log ''error'' ''Could not parse URL <::>: missing protocol scheme'',
         Stat ''/r1/github.com/bob/foo'',
         Log ''clone'' ''https://github.com/bob/foo -> /r1/github.com/bob/foo'',
         Clone Git ''https://github.com/bob/foo'' ''/r1/github.com/bob/foo'' False], Returned)"
  using batch_import_continues [where c = demo and isSSH = True and doUpdate = False
      and isShallow = True and tr = "[]" and repo = "\<lparr>HTMLURL = Some ''::''\<rparr>"
      and html = "''::''"
      and rest = "[\<lparr>HTMLURL = Some ''https://example.com/alice/foo''\<rparr>,
        \<lparr>HTMLURL = Some ''https://github.com/bob/foo''\<rparr>]"
      and resolvedURL = "''https://github.com/''"
      and urls = "[''https://github.com/alice'', ''::'', ''https://github.com/bob/foo'']"
      and repos = "[\<lparr>HTMLURL = Some ''::''\<rparr>]"]
  by (simp add: demo_def getRemoteRepository_def repoAt_def Let_def targetFails_def)

section \<open>The counters of unique listing\<close>

lemma at_empty: "at Map.empty k = 0"
  by (simp add: at_def)

lemma at_upd: "at (m(k \<mapsto> v)) k' = (if k' = k then v else at m k')"
  by (simp add: at_def)

lemma at_countSubpaths:
  "at (countSubpaths ps m) k = at m k + int (count_list ps k)"
  by (induction ps arbitrary: m) (simp_all add: at_upd)

lemma reposCount_countRepos:
  "at (snd (countRepos repos (sc, rc))) k = at rc k + int (count_list (map RelPath repos) k)"
  by (induction repos arbitrary: sc rc) (simp_all add: at_upd)

lemma subpathCount_countRepos:
  assumes "\<And>k. 0 \<le> at rc k" and "\<And>k. (at rc k \<noteq> 0) = (k \<in> set seen)"
  shows "at (fst (countRepos repos (sc, rc))) p
       = at sc p + int (count_list (concat (map Subpaths (firstCopies seen repos))) p)"
  using assms
proof (induction repos arbitrary: sc rc seen)
  case Nil
  show ?case by simp
next
  case (Cons repo rest)
  let ?rc = "rc(RelPath repo \<mapsto> at rc (RelPath repo) + 1)"
  have nonneg: "\<And>k. 0 \<le> at ?rc k"
    using Cons.prems(1) by (simp add: at_upd add_nonneg_nonneg)
  have pos: "at rc (RelPath repo) + 1 \<noteq> 0"
    using Cons.prems(1) [of "RelPath repo"] by arith
  show ?case
  proof (cases "RelPath repo \<in> set seen")
    case True
    then have old: "at rc (RelPath repo) \<noteq> 0"
      using Cons.prems(2) by simp
    have seen: "\<And>k. (at ?rc k \<noteq> 0) = (k \<in> set seen)"
      using Cons.prems(2) True pos by (simp add: at_upd)
    have ih: "at (fst (countRepos rest (sc, ?rc))) p
        = at sc p + int (count_list (concat (map Subpaths (firstCopies seen rest))) p)"
      by (rule Cons.IH [OF nonneg seen])
    show ?thesis
      using True old by (simp add: ih)
  next
    case False
    then have new: "at rc (RelPath repo) = 0"
      using Cons.prems(2) by blast
    have seen: "\<And>k. (at ?rc k \<noteq> 0) = (k \<in> set (RelPath repo # seen))"
      using Cons.prems(2) pos by (simp add: at_upd)
    have ih: "at (fst (countRepos rest (countSubpaths (Subpaths repo) sc, ?rc))) p
        = at (countSubpaths (Subpaths repo) sc) p
          + int (count_list (concat (map Subpaths (firstCopies (RelPath repo # seen) rest))) p)"
      by (rule Cons.IH [OF nonneg seen])
    show ?thesis
      using False new ih by (simp add: at_countSubpaths)
  qed
qed

lemma count_list_pos: "x \<in> set xs \<Longrightarrow> 0 < count_list xs x"
  using count_list_0_iff [of xs x] by simp

lemma firstCopies_eligible:
  assumes "primaryFirst u (pre @ repos) seen1 repos"
    and "set seen1 = RelPath ` set pre" and "set seen2 = RelPath ` set pre"
  shows "firstCopies seen2 repos = filter (eligible u (pre @ repos)) repos"
  using assms
proof (induction repos arbitrary: pre seen1 seen2)
  case Nil
  show ?case by simp
next
  case (Cons repo rest)
  have app: "pre @ repo # rest = (pre @ [repo]) @ rest"
    by simp
  have pf: "primaryFirst u ((pre @ [repo]) @ rest) (RelPath repo # seen1) rest"
    using Cons.prems(1) by simp
  have s1: "set (RelPath repo # seen1) = RelPath ` set (pre @ [repo])"
    using Cons.prems(2) by auto
  show ?case
  proof (cases "RelPath repo \<in> set seen2")
    case True
    then have "RelPath repo \<in> set (map RelPath pre)"
      using Cons.prems(3) by simp
    then have "0 < count_list (map RelPath pre) (RelPath repo)"
      by (rule count_list_pos)
    then have dup: "1 < count_list (map RelPath (pre @ repo # rest)) (RelPath repo)"
      by simp
    have "RelPath repo \<in> set seen1"
      using True Cons.prems(2,3) by simp
    with dup Cons.prems(1) have "\<not> u repo"
      by simp
    with dup have ne: "\<not> eligible u (pre @ repo # rest) repo"
      by (simp add: eligible_def)
    have s2: "set seen2 = RelPath ` set (pre @ [repo])"
      using True Cons.prems(3) by auto
    show ?thesis
      using Cons.IH [OF pf s1 s2] True ne by simp
  next
    case False
    then have "RelPath repo \<notin> set seen1"
      using Cons.prems(2,3) by simp
    with Cons.prems(1) have el: "eligible u (pre @ repo # rest) repo"
      by (simp add: eligible_def)
    have s2: "set (RelPath repo # seen2) = RelPath ` set (pre @ [repo])"
      using Cons.prems(3) by auto
    show ?thesis
      using Cons.IH [OF pf s1 s2] False el by simp
  qed
qed

lemma printedFor_eligible:
  "printedFor u sc (snd (countRepos repos (sc0, Map.empty))) repo
     = (if eligible u repos repo then firstUnique sc (Subpaths repo) else None)"
  by (simp add: printedFor_def eligible_def reposCount_countRepos at_empty)

text \<open>
  C5, as the code has it. In unique-listing mode the frequency count of a Subpath is
  built across the full subpath lists of exactly the first-discovered copy of each
  \<open>relPath\<close>; the subpaths of later copies are never counted. When discovery meets
  the copy under the primary root first, for every \<open>relPath\<close> that occurs more than
  once, these first copies are exactly the eligible repositories, where a \<open>relPath\<close>
  that occurs more than once contributes only its copy under the primary root; and
  the second pass prints for the eligible repositories only.
\<close>

theorem subpath_count_over_first_copies:
  "at (fst (countRepos repos (Map.empty, Map.empty))) p
     = int (count_list (concat (map Subpaths (firstCopies [] repos))) p)
   \<and> (primaryFirst u repos [] repos \<longrightarrow>
        firstCopies [] repos = filter (eligible u repos) repos)
   \<and> assigned u repos repo
       = (if eligible u repos repo
          then firstUnique (fst (countRepos repos (Map.empty, Map.empty))) (Subpaths repo)
          else None)"
proof (intro conjI impI)
  show "at (fst (countRepos repos (Map.empty, Map.empty))) p
     = int (count_list (concat (map Subpaths (firstCopies [] repos))) p)"
    using subpathCount_countRepos [of Map.empty "[]" repos Map.empty p]
    by (simp add: at_empty)
next
  assume "primaryFirst u repos [] repos"
  then show "firstCopies [] repos = filter (eligible u repos) repos"
    using firstCopies_eligible [of u "[]" repos "[]" "[]"] by simp
next
  show "assigned u repos repo
       = (if eligible u repos repo
          then firstUnique (fst (countRepos repos (Map.empty, Map.empty))) (Subpaths repo)
          else None)"
  proof -
    obtain sc rc where c: "countRepos repos (Map.empty, Map.empty) = (sc, rc)"
      by fastforce
    have "printedFor u sc (snd (countRepos repos (Map.empty, Map.empty))) repo
        = (if eligible u repos repo then firstUnique sc (Subpaths repo) else None)"
      by (rule printedFor_eligible)
    with c show ?thesis
      by (simp add: assigned_def)
  qed
qed

theorem subpath_count_over_first_copies_witness:
  "primaryFirst (IsUnderPrimaryRoot [''/r1'', ''/r2'']) two_roots [] two_roots
   \<and> firstCopies [] two_roots = filter (eligible (IsUnderPrimaryRoot [''/r1'', ''/r2'']) two_roots) two_roots
   \<and> firstCopies [] two_roots = [repoAt ''/r1'' [''github.com'', ''alice'', ''foo''],
     repoAt ''/r1'' [''github.com'', ''bob'', ''foo'']]
   \<and> at (fst (countRepos two_roots (Map.empty, Map.empty))) ''foo'' = 2"
  using subpath_count_over_first_copies [of two_roots "''foo''" "IsUnderPrimaryRoot [''/r1'', ''/r2'']"]
  by (simp add: two_roots_def repoAt_def IsUnderPrimaryRoot_def Subpaths_def)

text \<open>
  C5 as the claim states it fails when a \<open>relPath\<close> occurs under two roots and not
  under the primary root: neither copy is eligible, the subpaths of the first one are
  counted all the same, so \<open>foo\<close> counts 2 where the eligible repositories have it
  once, and \<open>bob/foo\<close> is printed instead of \<open>foo\<close>.
\<close>

theorem subpath_count_ineligible_counterexample:
  "at (fst (countRepos three_roots (Map.empty, Map.empty))) ''foo'' = 2
   \<and> filter (eligible (IsUnderPrimaryRoot [''/r1'', ''/r2'', ''/r3'']) three_roots) three_roots
       = [repoAt ''/r1'' [''github.com'', ''bob'', ''foo'']]
   \<and> count_list (concat (map Subpaths
        (filter (eligible (IsUnderPrimaryRoot [''/r1'', ''/r2'', ''/r3'']) three_roots) three_roots)))
        ''foo'' = 1
   \<and> doList RelPath (IsUnderPrimaryRoot [''/r1'', ''/r2'', ''/r3'']) three_roots [] False False True
       = [''bob/foo'']"
  by (simp add: three_roots_def repoAt_def IsUnderPrimaryRoot_def Subpaths_def eligible_def
      at_def doList_def listed_def filterFn_def printedFor_def)

section \<open>The assignment of unique listing\<close>





















end
